theory Spec2Isabelle
  imports Complex_Main
begin

section \<open>Truedat analyzer: the feature-to-mood scoring model of analyze.py\<close>

text \<open>
  The scoring functions of \<^verbatim>\<open>src/src/analyze.py\<close> (\<^verbatim>\<open>normalize\<close>, \<^verbatim>\<open>clamp\<close>,
  \<^verbatim>\<open>compute_valence\<close>, \<^verbatim>\<open>compute_arousal\<close> and the scoring part of \<^verbatim>\<open>analyze\<close>)
  are embedded as HOL functions.

  Numbers. The functions are embedded over exact arithmetic: a Python float is a real
  number, and the one non-finite value that the scoring code can produce from finite
  numbers is kept: \<^verbatim>\<open>np.mean\<close> of an empty slice is NaN.
  Python's float division raises \<^verbatim>\<open>ZeroDivisionError\<close> on a zero divisor; that is a
  branch of the model, not HOL's \<open>x / 0 = 0\<close>.

  Exact arithmetic is the reading in which the formulas, the range and the monotonicity
  of the scores are stated. The code computes in binary64, where every operation rounds
  its result, and two properties turn on that rounding: a sum can round to zero where the
  exact sum is not zero, which moves the error path of \<^verbatim>\<open>normalize\<close>, and a small term
  can be absorbed by a large one, which changes the difference of two scores. For these
  \<^verbatim>\<open>normalize\<close> and the argument of \<^verbatim>\<open>clamp\<close> in \<^verbatim>\<open>compute_valence\<close> are embedded a
  second time, as \<open>normalize_b64\<close> and \<open>valence_raw_b64\<close>, with every operation rounded.
  Overflow is in neither reading; a statement that depends on its absence bounds the
  magnitude of its inputs.

  \<^verbatim>\<open>round(x, n)\<close> rounds the exact value of the float it is given, so \<open>py_round\<close> differs
  from the code only through that value: a score that is a decimal tie in exact
  arithmetic, such as 0.1125, can lie a little off the tie in binary64 and then rounds
  the other way.
\<close>

subsection \<open>Floats\<close>

datatype pyfloat = Num real | NaN

datatype py_error = ZeroDivisionError

text \<open>Arithmetic propagates NaN.\<close>

instantiation pyfloat :: "{plus, minus, times}"
begin

fun plus_pyfloat :: "pyfloat \<Rightarrow> pyfloat \<Rightarrow> pyfloat" where
  "plus_pyfloat (Num a) (Num b) = Num (a + b)"
| "plus_pyfloat _ _ = NaN"

fun minus_pyfloat :: "pyfloat \<Rightarrow> pyfloat \<Rightarrow> pyfloat" where
  "minus_pyfloat (Num a) (Num b) = Num (a - b)"
| "minus_pyfloat _ _ = NaN"

fun times_pyfloat :: "pyfloat \<Rightarrow> pyfloat \<Rightarrow> pyfloat" where
  "times_pyfloat (Num a) (Num b) = Num (a * b)"
| "times_pyfloat _ _ = NaN"

instance ..

end

text \<open>
  \<^verbatim>\<open>a / b\<close> on Python floats: a zero divisor raises whatever the dividend is; otherwise
  NaN propagates.
\<close>

fun py_div :: "pyfloat \<Rightarrow> pyfloat \<Rightarrow> py_error + pyfloat" where
  "py_div a (Num b) =
     (if b = 0 then Inl ZeroDivisionError
      else Inr (case a of Num x \<Rightarrow> Num (x / b) | NaN \<Rightarrow> NaN))"
| "py_div a NaN = Inr NaN"

text \<open>\<^verbatim>\<open>a < b\<close>: every comparison with NaN is false.\<close>

fun py_lt :: "pyfloat \<Rightarrow> pyfloat \<Rightarrow> bool" where
  "py_lt (Num a) (Num b) = (a < b)"
| "py_lt _ _ = False"

text \<open>\<^verbatim>\<open>a <= b\<close>, likewise false on NaN; used to compare two results.\<close>

fun py_le :: "pyfloat \<Rightarrow> pyfloat \<Rightarrow> bool" where
  "py_le (Num a) (Num b) = (a \<le> b)"
| "py_le _ _ = False"

text \<open>
  The builtins \<^verbatim>\<open>min(a, b)\<close> and \<^verbatim>\<open>max(a, b)\<close> keep the first argument unless the
  second compares strictly smaller (\<^verbatim>\<open>b < a\<close>), respectively strictly greater
  (\<^verbatim>\<open>b > a\<close>).
\<close>

definition py_min :: "pyfloat \<Rightarrow> pyfloat \<Rightarrow> pyfloat" where
  "py_min a b = (if py_lt b a then b else a)"

definition py_max :: "pyfloat \<Rightarrow> pyfloat \<Rightarrow> pyfloat" where
  "py_max a b = (if py_lt a b then b else a)"

text \<open>
  \<^verbatim>\<open>np.mean(xs)\<close>: the sum divided by the number of elements; NaN (with a warning, no
  exception) on an empty array.
\<close>

fun np_sum :: "pyfloat list \<Rightarrow> pyfloat" where
  "np_sum [] = Num 0"
| "np_sum (x # xs) = x + np_sum xs"

definition np_mean :: "pyfloat list \<Rightarrow> pyfloat" where
  "np_mean xs =
     (if xs = [] then NaN
      else (case np_sum xs of Num s \<Rightarrow> Num (s / real (length xs)) | NaN \<Rightarrow> NaN))"

text \<open>
  \<^verbatim>\<open>round(x, ndigits)\<close> on a float: the nearest multiple of \<open>10^-ndigits\<close>, a tie going
  to the even one; NaN stays NaN.
\<close>

definition round_half_even :: "real \<Rightarrow> int" where
  "round_half_even x =
     (let f = \<lfloor>x\<rfloor>; d = x - of_int f
      in if d < 1 / 2 then f
         else if 1 / 2 < d then f + 1
         else if even f then f else f + 1)"

fun py_round :: "pyfloat \<Rightarrow> nat \<Rightarrow> pyfloat" where
  "py_round (Num x) ndigits = Num (of_int (round_half_even (x * 10 ^ ndigits)) / 10 ^ ndigits)"
| "py_round NaN ndigits = NaN"

subsection \<open>Binary64 rounding\<close>

text \<open>
  \<open>b64 x\<close> is the binary64 number nearest to the real \<open>x\<close>, a tie going to the even
  significand: for \<open>x\<close> in the binade from \<open>2^e\<close> to \<open>2^(e+1)\<close> the representable numbers
  are the multiples of the quantum \<open>2^(e-52)\<close> (a significand of 53 bits). The exponent
  is not bounded: overflow to infinity and the subnormal range are not modelled.
  Addition, subtraction, multiplication and division of binary64 numbers are the exact
  operation followed by \<open>b64\<close>.
\<close>

definition b64_quantum :: "real \<Rightarrow> real" where
  "b64_quantum x = 2 powi (\<lfloor>log 2 \<bar>x\<bar>\<rfloor> - 52)"

definition b64 :: "real \<Rightarrow> real" where
  "b64 x = (if x = 0 then 0
            else of_int (round_half_even (x / b64_quantum x)) * b64_quantum x)"

definition add64 :: "real \<Rightarrow> real \<Rightarrow> real" where
  "add64 a b = b64 (a + b)"

definition sub64 :: "real \<Rightarrow> real \<Rightarrow> real" where
  "sub64 a b = b64 (a - b)"

definition mul64 :: "real \<Rightarrow> real \<Rightarrow> real" where
  "mul64 a b = b64 (a * b)"

text \<open>
  \<^verbatim>\<open>np.mean\<close> on a short array of binary64 numbers adds the elements in order and
  divides the sum by their number.
\<close>

definition np_mean_b64 :: "real list \<Rightarrow> pyfloat" where
  "np_mean_b64 xs =
     (if xs = [] then NaN else Num (b64 (foldl add64 0 xs / real (length xs))))"

subsection \<open>The scoring functions\<close>

text \<open>
  \<^verbatim>\<open>
  def normalize(x, min_val, max_val):
      return (x - min_val) / (max_val - min_val + 1e-9)
  \<close>
\<close>

definition normalize :: "pyfloat \<Rightarrow> pyfloat \<Rightarrow> pyfloat \<Rightarrow> py_error + pyfloat" where
  "normalize x min_val max_val =
     py_div (x - min_val) (max_val - min_val + Num (1 / 1000000000))"

text \<open>
  In exact arithmetic the divisor is zero exactly when \<open>max_val - min_val\<close> is \<open>-1e-9\<close>.
  The same function in binary64, for binary64 arguments: the literal \<^verbatim>\<open>1e-9\<close> is the
  float nearest to that decimal, the two subtractions, the addition and the division
  round, and the division raises when the rounded divisor is zero, which is when the
  rounded difference \<open>max_val - min_val\<close> is the negation of that float.
\<close>

definition normalize_b64 :: "real \<Rightarrow> real \<Rightarrow> real \<Rightarrow> py_error + real" where
  "normalize_b64 x min_val max_val =
     (let divisor = add64 (sub64 max_val min_val) (b64 (1 / 1000000000))
      in if divisor = 0 then Inl ZeroDivisionError
         else Inr (b64 (sub64 x min_val / divisor)))"

text \<open>
  \<^verbatim>\<open>
  def clamp(x, min_val=0.0, max_val=1.0):
      return max(min_val, min(max_val, x))
  \<close>
  Both callers use the default bounds, written out in the model.
\<close>

definition clamp :: "pyfloat \<Rightarrow> pyfloat \<Rightarrow> pyfloat \<Rightarrow> pyfloat" where
  "clamp x min_val max_val = py_max min_val (py_min max_val x)"

text \<open>
  \<^verbatim>\<open>
  def compute_valence(mode, spectral_centroid, valence_model, mfccs):
      mode_flag = 1 if mode == "major" else 0
      mfcc_brightness = np.mean(mfccs[:5])
      return clamp(0.35 * mode_flag + 0.25 * spectral_centroid +
                   0.20 * valence_model + 0.20 * mfcc_brightness)
  \<close>
  The slice \<^verbatim>\<open>mfccs[:5]\<close> never raises: on a shorter sequence it is the whole sequence.
  \<open>valence_raw\<close> names the argument of \<^verbatim>\<open>clamp\<close>.
\<close>

definition valence_raw :: "string \<Rightarrow> pyfloat \<Rightarrow> pyfloat \<Rightarrow> pyfloat list \<Rightarrow> pyfloat" where
  "valence_raw mode spectral_centroid valence_model mfccs =
     (let mode_flag = (if mode = ''major'' then Num 1 else Num 0);
          mfcc_brightness = np_mean (take 5 mfccs)
      in Num (35 / 100) * mode_flag +
         Num (25 / 100) * spectral_centroid +
         Num (20 / 100) * valence_model +
         Num (20 / 100) * mfcc_brightness)"

definition compute_valence :: "string \<Rightarrow> pyfloat \<Rightarrow> pyfloat \<Rightarrow> pyfloat list \<Rightarrow> pyfloat" where
  "compute_valence mode spectral_centroid valence_model mfccs =
     clamp (valence_raw mode spectral_centroid valence_model mfccs) (Num 0) (Num 1)"

text \<open>
  The argument of \<^verbatim>\<open>clamp\<close> in binary64, for binary64 arguments: the four literals are
  the floats nearest to the decimals, each product rounds, and the three additions
  round from left to right.
\<close>

definition valence_raw_b64 :: "string \<Rightarrow> real \<Rightarrow> real \<Rightarrow> real list \<Rightarrow> pyfloat" where
  "valence_raw_b64 mode spectral_centroid valence_model mfccs =
     (let mode_flag = (if mode = ''major'' then 1 else 0) in
      case np_mean_b64 (take 5 mfccs) of
        NaN \<Rightarrow> NaN
      | Num mfcc_brightness \<Rightarrow>
          Num (add64 (add64 (add64 (mul64 (b64 (35 / 100)) mode_flag)
                                   (mul64 (b64 (25 / 100)) spectral_centroid))
                            (mul64 (b64 (20 / 100)) valence_model))
                     (mul64 (b64 (20 / 100)) mfcc_brightness)))"

text \<open>
  \<^verbatim>\<open>
  def compute_arousal(bpm, loudness, spectral_flux, energy_model):
      return clamp(0.4 * bpm + 0.3 * loudness + 0.2 * spectral_flux + 0.1 * energy_model)
  \<close>
  \<open>arousal_raw\<close> names the argument of \<^verbatim>\<open>clamp\<close>.
\<close>

definition arousal_raw :: "pyfloat \<Rightarrow> pyfloat \<Rightarrow> pyfloat \<Rightarrow> pyfloat \<Rightarrow> pyfloat" where
  "arousal_raw bpm loudness spectral_flux energy_model =
     Num (4 / 10) * bpm +
     Num (3 / 10) * loudness +
     Num (2 / 10) * spectral_flux +
     Num (1 / 10) * energy_model"

definition compute_arousal :: "pyfloat \<Rightarrow> pyfloat \<Rightarrow> pyfloat \<Rightarrow> pyfloat \<Rightarrow> pyfloat" where
  "compute_arousal bpm loudness spectral_flux energy_model =
     clamp (arousal_raw bpm loudness spectral_flux energy_model) (Num 0) (Num 1)"

subsection \<open>The scoring part of analyze\<close>

text \<open>
  \<^verbatim>\<open>analyze(path)\<close> obtains its descriptors from the Essentia extractors and then
  scores them. The extractors are outside the model: their outputs are the fields of
  \<open>descriptors\<close>. The high-level stage runs inside \<^verbatim>\<open>try: ... except:\<close>; its outcome
  is \<open>Some (energy_model, valence_model)\<close> when both lookups succeed and \<open>None\<close> when
  anything in the block raises, in which case the handler assigns \<open>0.5\<close> to both.
  Every descriptor is a float of one kind, as in the data model of the specification;
  the coefficient array that Essentia hands over holds float32 numbers, whose mean
  \<^verbatim>\<open>np.mean\<close> forms in float32.
\<close>

record descriptors =
  d_bpm :: pyfloat
  d_loudness :: pyfloat
  d_spectral_centroid :: pyfloat
  d_spectral_flux :: pyfloat
  d_mfcc :: "pyfloat list"
  d_key :: string
  d_scale :: string

record mood_result =
  r_bpm :: pyfloat
  r_loudness :: pyfloat
  r_spectral_centroid :: pyfloat
  r_spectral_flux :: pyfloat
  r_key :: string
  r_mode :: string
  r_valence :: pyfloat
  r_arousal :: pyfloat

definition high_level :: "(pyfloat \<times> pyfloat) option \<Rightarrow> pyfloat \<times> pyfloat" where
  "high_level high =
     (case high of
        Some (energy_model, valence_model) \<Rightarrow> (energy_model, valence_model)
      | None \<Rightarrow> (Num (5 / 10), Num (5 / 10)))"

text \<open>
  The mood vector before rounding, lines 106 to 114 of analyze.py: normalisation with
  the fixed reference ranges, then the two scorers. A \<^verbatim>\<open>ZeroDivisionError\<close> of
  \<^verbatim>\<open>normalize\<close> would propagate.
\<close>

definition mood_vector ::
  "descriptors \<Rightarrow> pyfloat \<Rightarrow> pyfloat \<Rightarrow> py_error + (pyfloat \<times> pyfloat)" where
  "mood_vector f energy_model valence_model =
     (case normalize (d_bpm f) (Num 60) (Num 200) of
        Inl e \<Rightarrow> Inl e
      | Inr bpm_n \<Rightarrow>
     (case normalize (d_loudness f) (Num (- 60)) (Num 0) of
        Inl e \<Rightarrow> Inl e
      | Inr loud_n \<Rightarrow>
     (case normalize (d_spectral_centroid f) (Num 500) (Num 5000) of
        Inl e \<Rightarrow> Inl e
      | Inr cent_n \<Rightarrow>
     (case normalize (d_spectral_flux f) (Num 0) (Num 1) of
        Inl e \<Rightarrow> Inl e
      | Inr flux_n \<Rightarrow>
          Inr (compute_valence (d_scale f) cent_n valence_model (d_mfcc f),
               compute_arousal bpm_n loud_n flux_n energy_model)))))"

definition analyze :: "descriptors \<Rightarrow> (pyfloat \<times> pyfloat) option \<Rightarrow> py_error + mood_result" where
  "analyze f high =
     (let (energy_model, valence_model) = high_level high
      in case mood_vector f energy_model valence_model of
           Inl e \<Rightarrow> Inl e
         | Inr (valence, arousal) \<Rightarrow>
             Inr \<lparr> r_bpm = py_round (d_bpm f) 1,
                   r_loudness = py_round (d_loudness f) 2,
                   r_spectral_centroid = py_round (d_spectral_centroid f) 1,
                   r_spectral_flux = py_round (d_spectral_flux f) 3,
                   r_key = d_key f,
                   r_mode = d_scale f,
                   r_valence = py_round valence 3,
                   r_arousal = py_round arousal 3 \<rparr>)"

text \<open>
  The descriptors of the specification's second example scenario; the key does not
  enter the scores and is left open.
\<close>

definition scenario2 :: "string \<Rightarrow> descriptors" where
  "scenario2 k =
     \<lparr> d_bpm = Num 200, d_loudness = Num 0, d_spectral_centroid = Num 5000,
       d_spectral_flux = Num 1, d_mfcc = [Num 1, Num 1, Num 1, Num 1, Num 1],
       d_key = k, d_scale = ''major'' \<rparr>"

subsection \<open>The formulas of the specification\<close>

text \<open>
  The specification's closed forms over the reals, to be compared with the functions
  above: \<open>clamp(x, 0, 1) = max(0, min(1, x))\<close> and the two weighted sums.
\<close>

definition spec_clamp01 :: "real \<Rightarrow> real" where
  "spec_clamp01 x = max 0 (min 1 x)"

definition spec_mode_flag :: "string \<Rightarrow> real" where
  "spec_mode_flag mode = (if mode = ''major'' then 1 else 0)"

definition spec_brightness :: "real list \<Rightarrow> real" where
  "spec_brightness xs = sum_list (take 5 xs) / 5"

definition spec_valence :: "string \<Rightarrow> real \<Rightarrow> real \<Rightarrow> real list \<Rightarrow> real" where
  "spec_valence mode c v xs =
     spec_clamp01 (35 / 100 * spec_mode_flag mode + 25 / 100 * c + 20 / 100 * v
                   + 20 / 100 * spec_brightness xs)"

definition spec_arousal :: "real \<Rightarrow> real \<Rightarrow> real \<Rightarrow> real \<Rightarrow> real" where
  "spec_arousal b l f e = spec_clamp01 (4 / 10 * b + 3 / 10 * l + 2 / 10 * f + 1 / 10 * e)"

section \<open>Properties\<close>

subsection \<open>Helper lemmas\<close>

lemma clamp_Num: "clamp (Num x) (Num 0) (Num 1) = Num (max 0 (min 1 x))"
  by (simp add: clamp_def py_min_def py_max_def max_def min_def)

lemma clamp_NaN: "clamp NaN (Num 0) (Num 1) = Num 1"
  by (simp add: clamp_def py_min_def py_max_def)

lemma clamp_range: "\<exists>v. clamp x (Num 0) (Num 1) = Num v \<and> 0 \<le> v \<and> v \<le> 1"
  by (cases x) (simp_all add: clamp_Num clamp_NaN)

lemma np_sum_map_Num: "np_sum (map Num xs) = Num (sum_list xs)"
  by (induction xs) simp_all

lemma np_mean_map_Num:
  "xs \<noteq> [] \<Longrightarrow> np_mean (map Num xs) = Num (sum_list xs / real (length xs))"
  by (simp add: np_mean_def np_sum_map_Num)

lemma valence_raw_Num:
  assumes "xs \<noteq> []"
  shows "valence_raw mode (Num c) (Num v) (map Num xs) =
         Num (35 / 100 * (if mode = ''major'' then 1 else 0) + 25 / 100 * c + 20 / 100 * v
              + 20 / 100 * (sum_list (take 5 xs) / real (length (take 5 xs))))"
proof -
  from assms have ne: "take 5 xs \<noteq> []" by (cases xs) simp_all
  have "np_mean (take 5 (map Num xs)) = Num (sum_list (take 5 xs) / real (length (take 5 xs)))"
    using np_mean_map_Num [OF ne] by (simp add: take_map)
  then show ?thesis by (simp add: valence_raw_def)
qed

lemma arousal_raw_Num:
  "arousal_raw (Num b) (Num l) (Num f) (Num e) =
   Num (4 / 10 * b + 3 / 10 * l + 2 / 10 * f + 1 / 10 * e)"
  by (simp add: arousal_raw_def)

lemma compute_valence_Num:
  "xs \<noteq> [] \<Longrightarrow> compute_valence mode (Num c) (Num v) (map Num xs) =
     Num (spec_clamp01 (35 / 100 * spec_mode_flag mode + 25 / 100 * c + 20 / 100 * v
              + 20 / 100 * (sum_list (take 5 xs) / real (length (take 5 xs)))))"
  by (simp add: compute_valence_def valence_raw_Num clamp_Num spec_clamp01_def spec_mode_flag_def)

lemma compute_valence_empty: "compute_valence mode (Num c) (Num v) [] = Num 1"
  by (simp add: compute_valence_def valence_raw_def np_mean_def clamp_NaN)

lemma clamp_mono:
  "x \<le> y \<Longrightarrow> py_le (clamp (Num x) (Num 0) (Num 1)) (clamp (Num y) (Num 0) (Num 1))"
  by (simp add: clamp_Num)

lemma sum_list_take_mono:
  fixes xs ys :: "real list"
  assumes "list_all2 (\<le>) xs ys"
  shows "sum_list (take n xs) \<le> sum_list (take n ys)"
  using assms
proof (induction xs ys arbitrary: n rule: list_all2_induct)
  case Nil
  then show ?case by simp
next
  case (Cons x xs y ys)
  then show ?case by (cases n) (simp_all add: add_mono)
qed

lemma list_all2_update:
  fixes xs :: "real list"
  assumes "i < length xs" and "xs ! i \<le> y"
  shows "list_all2 (\<le>) xs (xs[i := y])"
  using assms by (simp add: list_all2_conv_all_nth nth_list_update)

text \<open>Both scorers are monotone in all their numeric arguments at once.\<close>

lemma compute_valence_mono:
  assumes "c \<le> c'" and "v \<le> v'" and "list_all2 (\<le>) xs ys"
  shows "py_le (compute_valence mode (Num c) (Num v) (map Num xs))
               (compute_valence mode (Num c') (Num v') (map Num ys))"
proof (cases "xs = []")
  case True
  with assms(3) have "ys = []" by simp
  with True show ?thesis by (simp add: compute_valence_empty)
next
  case False
  with assms(3) have ne: "ys \<noteq> []" by auto
  have len: "length xs = length ys" using assms(3) by (rule list_all2_lengthD)
  have s: "sum_list (take 5 xs) \<le> sum_list (take 5 ys)"
    using assms(3) by (rule sum_list_take_mono)
  have "sum_list (take 5 xs) / real (length (take 5 xs))
        \<le> sum_list (take 5 ys) / real (length (take 5 ys))"
    using s len by (simp add: divide_right_mono)
  with assms(1,2) show ?thesis
    unfolding compute_valence_def valence_raw_Num [OF False] valence_raw_Num [OF ne]
    by (intro clamp_mono) simp
qed

lemma compute_arousal_mono:
  assumes "b \<le> b'" and "l \<le> l'" and "f \<le> f'" and "e \<le> e'"
  shows "py_le (compute_arousal (Num b) (Num l) (Num f) (Num e))
               (compute_arousal (Num b') (Num l') (Num f') (Num e'))"
  using assms unfolding compute_arousal_def arousal_raw_Num
  by (intro clamp_mono) simp

text \<open>With the fixed reference ranges the divisor of \<open>normalize\<close> is never zero.\<close>

lemma normalize_fixed:
  "lo < hi \<Longrightarrow> normalize x (Num lo) (Num hi) =
     Inr (case x of Num a \<Rightarrow> Num ((a - lo) / (hi - lo + 1 / 1000000000)) | NaN \<Rightarrow> NaN)"
  by (cases x) (simp_all add: normalize_def)

lemma mood_vector_Inr: "\<exists>p. mood_vector f e v = Inr p"
  by (simp add: mood_vector_def normalize_fixed)

text \<open>A value strictly within one half of an integer rounds to that integer.\<close>

lemma round_half_even_near:
  assumes "of_int n - 1 / 2 < x" and "x < of_int n + 1 / 2"
  shows "round_half_even x = n"
proof (cases "of_int n \<le> x")
  case True
  with assms have "\<lfloor>x\<rfloor> = n" by linarith
  with assms show ?thesis by (simp add: round_half_even_def Let_def)
next
  case False
  with assms have "\<lfloor>x\<rfloor> = n - 1" by linarith
  with assms False show ?thesis by (simp add: round_half_even_def Let_def)
qed

lemma py_round_near_one:
  assumes "\<bar>v - 1\<bar> < 1 / 1000000000"
  shows "py_round (Num v) 3 = Num 1"
proof -
  from assms have "1 - 1 / 1000000000 < v" and "v < 1 + 1 / 1000000000"
    by (simp_all only: abs_less_iff) linarith+
  then have lo: "real_of_int 1000 - 1 / 2 < v * 10 ^ 3"
    and hi: "v * 10 ^ 3 < real_of_int 1000 + 1 / 2" by simp_all
  have "round_half_even (v * 10 ^ 3) = 1000"
    using lo hi by (rule round_half_even_near)
  then show ?thesis by simp
qed

text \<open>
  The second example scenario, before rounding: every normalised feature is
  \<open>d / (d + 1e-9)\<close> for its range width \<open>d\<close>, within \<open>1e-9\<close> of 1, and so are both scores.
\<close>

lemma scenario2_scores:
  "\<exists>v a. mood_vector (scenario2 k) (Num 1) (Num 1) = Inr (Num v, Num a)
      \<and> \<bar>v - 1\<bar> < 1 / 1000000000 \<and> \<bar>a - 1\<bar> < 1 / 1000000000"
proof -
  define bpm_n :: real where "bpm_n = 140 / (140 + 1 / 1000000000)"
  define loud_n :: real where "loud_n = 60 / (60 + 1 / 1000000000)"
  define cent_n :: real where "cent_n = 4500 / (4500 + 1 / 1000000000)"
  define flux_n :: real where "flux_n = 1 / (1 + 1 / 1000000000)"
  define v :: real where "v = 35 / 100 + 25 / 100 * cent_n + 20 / 100 + 20 / 100"
  define a :: real where "a = 4 / 10 * bpm_n + 3 / 10 * loud_n + 2 / 10 * flux_n + 1 / 10"
  have n1: "normalize (Num 200) (Num 60) (Num 200) = Inr (Num bpm_n)"
    by (simp add: normalize_def bpm_n_def)
  have n2: "normalize (Num 0) (Num (- 60)) (Num 0) = Inr (Num loud_n)"
    by (simp add: normalize_def loud_n_def)
  have n3: "normalize (Num 5000) (Num 500) (Num 5000) = Inr (Num cent_n)"
    by (simp add: normalize_def cent_n_def)
  have n4: "normalize (Num 1) (Num 0) (Num 1) = Inr (Num flux_n)"
    by (simp add: normalize_def flux_n_def)
  have vb: "1 - 1 / 1000000000 < v" "v < 1"
    by (simp_all add: v_def cent_n_def)
  have ab: "1 - 1 / 1000000000 < a" "a < 1"
    by (simp_all add: a_def bpm_n_def loud_n_def flux_n_def)
  have cv: "compute_valence ''major'' (Num cent_n) (Num 1) [Num 1, Num 1, Num 1, Num 1, Num 1]
            = Num v"
  proof -
    have "valence_raw ''major'' (Num cent_n) (Num 1) [Num 1, Num 1, Num 1, Num 1, Num 1] = Num v"
      by (simp add: valence_raw_def np_mean_def v_def)
    with vb show ?thesis by (simp add: compute_valence_def clamp_Num)
  qed
  have ca: "compute_arousal (Num bpm_n) (Num loud_n) (Num flux_n) (Num 1) = Num a"
  proof -
    have "arousal_raw (Num bpm_n) (Num loud_n) (Num flux_n) (Num 1) = Num a"
      by (simp add: arousal_raw_def a_def)
    with ab show ?thesis by (simp add: compute_arousal_def clamp_Num)
  qed
  have "mood_vector (scenario2 k) (Num 1) (Num 1) = Inr (Num v, Num a)"
    by (simp add: mood_vector_def scenario2_def n1 n2 n3 n4 cv ca)
  moreover have "\<bar>v - 1\<bar> < 1 / 1000000000" "\<bar>a - 1\<bar> < 1 / 1000000000"
    using vb ab by simp_all
  ultimately show ?thesis by blast
qed

subsection \<open>C1: saturation\<close>

text \<open>
  C1. For every input, the valence returned by \<open>compute_valence\<close> and the arousal
  returned by \<open>compute_arousal\<close> are numbers in the closed interval from 0 to 1. The
  statement has no precondition on the arguments: the normalised inputs may lie far
  outside that interval, the coefficient sequence may have any length, and any
  argument may even be NaN.
\<close>

theorem C1_mood_vector_saturates:
  "(\<exists>v. compute_valence mode spectral_centroid valence_model mfccs = Num v \<and> 0 \<le> v \<and> v \<le> 1)
   \<and> (\<exists>a. compute_arousal bpm loudness spectral_flux energy_model = Num a \<and> 0 \<le> a \<and> a \<le> 1)"
  by (simp add: compute_valence_def compute_arousal_def clamp_range)

subsection \<open>C2: fewer than five timbre coefficients\<close>

text \<open>
  The source has no check on the number of coefficients and no error of that kind: the
  slice \<^verbatim>\<open>mfccs[:5]\<close> of a shorter sequence is the whole sequence, and its mean is
  taken. With three coefficients a numeric valence comes back.
\<close>

theorem C2_short_timbre_counterexample:
  "compute_valence ''major'' (Num 0) (Num 0) [Num 1, Num 1, Num 1] = Num (11 / 20)"
  by (simp add: compute_valence_def valence_raw_def np_mean_def clamp_Num)

text \<open>
  C2, as the code has it. For a sequence of one to four timbre coefficients
  \<open>compute_valence\<close> reports no error and returns a numeric valence: the clamped
  weighted sum in which the brightness is the mean of all the coefficients supplied.
\<close>

theorem C2_short_timbre_scored:
  assumes "xs \<noteq> []" and "length xs < 5"
  shows "compute_valence mode (Num c) (Num v) (map Num xs) =
         Num (spec_clamp01 (35 / 100 * spec_mode_flag mode + 25 / 100 * c + 20 / 100 * v
              + 20 / 100 * (sum_list xs / real (length xs))))"
  using assms by (simp add: compute_valence_Num)

theorem C2_short_timbre_scored_witness:
  "[1, 1, 1 :: real] \<noteq> [] \<and> length [1, 1, 1 :: real] < 5 \<and>
   compute_valence ''major'' (Num 0) (Num 0) (map Num [1, 1, 1]) = Num (11 / 20)"
  using C2_short_timbre_scored [of "[1, 1, 1]" "''major''" 0 0]
  by (simp add: spec_clamp01_def spec_mode_flag_def)

subsection \<open>C3: a mode other than major or minor\<close>

text \<open>
  The mode flag is \<^verbatim>\<open>1 if mode == "major" else 0\<close>: a mode string outside major and
  minor is scored, with flag 0, and nothing is reported. For the mode \<open>dorian\<close> a
  numeric valence comes back.
\<close>

theorem C3_unknown_mode_counterexample:
  "compute_valence ''dorian'' (Num 0) (Num 0) [Num 1, Num 1, Num 1, Num 1, Num 1] = Num (1 / 5)"
  by (simp add: compute_valence_def valence_raw_def np_mean_def clamp_Num)

text \<open>
  C3, as the code has it. For every mode string other than \<open>major\<close>, whether it is
  \<open>minor\<close> or anything else, \<open>compute_valence\<close> reports no error and returns a numeric
  valence, the same one as for \<open>minor\<close> (mode flag 0).
\<close>

theorem C3_unknown_mode_scored_as_minor:
  assumes "mode \<noteq> ''major''"
  shows "compute_valence mode c v xs = compute_valence ''minor'' c v xs
       \<and> (\<exists>r. compute_valence mode c v xs = Num r)"
proof -
  have "\<exists>r. compute_valence mode c v xs = Num r"
    using clamp_range [of "valence_raw mode c v xs"] by (auto simp add: compute_valence_def)
  with assms show ?thesis by (simp add: compute_valence_def valence_raw_def)
qed

theorem C3_unknown_mode_scored_as_minor_witness:
  "''dorian'' \<noteq> ''major'' \<and>
   compute_valence ''dorian'' (Num 0) (Num 0) [Num 1, Num 1, Num 1, Num 1, Num 1]
     = compute_valence ''minor'' (Num 0) (Num 0) [Num 1, Num 1, Num 1, Num 1, Num 1]
   \<and> (\<exists>r. compute_valence ''dorian'' (Num 0) (Num 0) [Num 1, Num 1, Num 1, Num 1, Num 1] = Num r)"
proof -
  have ne: "''dorian'' \<noteq> ''major''" by simp
  from ne C3_unknown_mode_scored_as_minor
            [OF ne, of "Num 0" "Num 0" "[Num 1, Num 1, Num 1, Num 1, Num 1]"]
  show ?thesis by blast
qed

subsection \<open>C4: the valence formula\<close>

text \<open>
  C4. For a mode in major or minor and at least five timbre coefficients,
  \<open>compute_valence\<close> returns \<open>spec_valence\<close>, the clamp to the interval from 0 to 1 of
  \<open>0.35 modeFlag + 0.25 centroid + 0.20 valenceModel + 0.20 brightness\<close>, where the
  mode flag is 1 exactly for major and the brightness is the arithmetic mean of the
  first five coefficients. Coefficients beyond the fifth have no effect: the result is
  the one for the first five alone.
\<close>

theorem C4_valence_formula:
  assumes "mode \<in> {''major'', ''minor''}" and "5 \<le> length xs"
  shows "compute_valence mode (Num c) (Num v) (map Num xs) = Num (spec_valence mode c v xs)
       \<and> compute_valence mode (Num c) (Num v) (map Num xs)
         = compute_valence mode (Num c) (Num v) (map Num (take 5 xs))"
proof -
  from assms(2) have ne: "xs \<noteq> []" and ne5: "take 5 xs \<noteq> []" by auto
  from assms(2) have len: "length (take 5 xs) = 5" by simp
  show ?thesis
    using len
    by (simp add: compute_valence_Num [OF ne] compute_valence_Num [OF ne5]
          spec_valence_def spec_brightness_def)
qed

theorem C4_valence_formula_witness:
  "''major'' \<in> {''major'', ''minor''} \<and> 5 \<le> length [1, 2, 3, 4, 5, 60 :: real] \<and>
   compute_valence ''major'' (Num 0) (Num 0) (map Num [1, 2, 3, 4, 5, 60]) = Num (19 / 20)"
  using C4_valence_formula [of "''major''" "[1, 2, 3, 4, 5, 60]" 0 0]
  by (simp add: spec_valence_def spec_brightness_def spec_clamp01_def spec_mode_flag_def)

subsection \<open>C5: the arousal formula\<close>

text \<open>
  C5. For all real inputs \<open>compute_arousal\<close> returns \<open>spec_arousal\<close>, the clamp to the
  interval from 0 to 1 of \<open>0.4 bpm + 0.3 loudness + 0.2 flux + 0.1 energyModel\<close>. The
  four weights sum to 1 within \<open>1e-9\<close>: their sum is the unclamped score at the input
  where every feature is 1.
\<close>

theorem C5_arousal_formula:
  "compute_arousal (Num b) (Num l) (Num f) (Num e) = Num (spec_arousal b l f e)
   \<and> (\<exists>s. arousal_raw (Num 1) (Num 1) (Num 1) (Num 1) = Num s \<and> \<bar>s - 1\<bar> \<le> 1 / 1000000000)"
  by (simp add: compute_arousal_def arousal_raw_Num clamp_Num spec_arousal_def spec_clamp01_def)

subsection \<open>Properties of binary64 rounding\<close>

text \<open>Rounding to the nearest integer: the two candidates, monotonicity, symmetry.\<close>

lemma round_half_even_cases:
  "round_half_even x = \<lfloor>x\<rfloor> \<or> round_half_even x = \<lfloor>x\<rfloor> + 1"
  by (simp add: round_half_even_def Let_def)

lemma round_half_even_of_int [simp]: "round_half_even (of_int n) = n"
  by (simp add: round_half_even_def Let_def)

lemma round_half_even_mono:
  assumes "x \<le> y"
  shows "round_half_even x \<le> round_half_even y"
proof (cases "\<lfloor>x\<rfloor> = \<lfloor>y\<rfloor>")
  case True
  with assms have "x - of_int \<lfloor>x\<rfloor> \<le> y - of_int \<lfloor>y\<rfloor>" by simp
  with True show ?thesis
    by (simp add: round_half_even_def Let_def)
next
  case False
  with assms have "\<lfloor>x\<rfloor> < \<lfloor>y\<rfloor>" by (simp add: floor_mono order.strict_iff_order)
  moreover have "round_half_even x \<le> \<lfloor>x\<rfloor> + 1"
    using round_half_even_cases [of x] by auto
  moreover have "\<lfloor>y\<rfloor> \<le> round_half_even y"
    using round_half_even_cases [of y] by auto
  ultimately show ?thesis by linarith
qed

lemma round_half_even_ge: "of_int a \<le> x \<Longrightarrow> a \<le> round_half_even x"
  using round_half_even_mono [of "of_int a" x] by simp

lemma round_half_even_le: "x \<le> of_int b \<Longrightarrow> round_half_even x \<le> b"
  using round_half_even_mono [of x "of_int b"] by simp

lemma round_half_even_minus: "round_half_even (- x) = - round_half_even x"
proof (cases "x = of_int \<lfloor>x\<rfloor>")
  case True
  then obtain n where "x = of_int n" ..
  then show ?thesis by (simp flip: of_int_minus)
next
  case False
  define f where "f = \<lfloor>x\<rfloor>"
  define d where "d = x - of_int f"
  have fl: "\<lfloor>- x\<rfloor> = - f - 1"
    using False by (simp add: floor_minus ceiling_altdef f_def)
  have x: "x = of_int f + d" by (simp add: d_def)
  have d': "- x - of_int (- f - 1) = 1 - d" by (simp add: d_def)
  have pos: "round_half_even x =
      (if d < 1 / 2 then f else if 1 / 2 < d then f + 1 else if even f then f else f + 1)"
    by (simp add: round_half_even_def Let_def f_def d_def)
  have neg: "round_half_even (- x) =
      (if 1 - d < 1 / 2 then - f - 1 else if 1 / 2 < 1 - d then - f
       else if even (- f - 1) then - f - 1 else - f)"
    unfolding round_half_even_def Let_def fl d' by simp
  consider "d < 1 / 2" | "1 / 2 < d" | "d = 1 / 2" by linarith
  then show ?thesis
  proof cases
    case 1
    then show ?thesis by (simp add: pos neg)
  next
    case 2
    then show ?thesis by (simp add: pos neg)
  next
    case 3
    then show ?thesis by (simp add: pos neg)
  qed
qed

lemma two_powr_powi: "(2::real) powr (of_int e) = 2 powi e"
  by (simp add: powr_real_of_int power_int_def power_one_over inverse_eq_divide)

lemma binade:
  assumes "0 < x"
  shows "2 powi \<lfloor>log 2 x\<rfloor> \<le> x" and "x < 2 powi (\<lfloor>log 2 x\<rfloor> + 1)"
proof -
  have "2 powr (of_int \<lfloor>log 2 x\<rfloor>) \<le> x \<and> x < 2 powr (of_int (\<lfloor>log 2 x\<rfloor> + 1))"
    using floor_log_eq_powr_iff [of x 2 "\<lfloor>log 2 x\<rfloor>"] assms by simp
  then show "2 powi \<lfloor>log 2 x\<rfloor> \<le> x" and "x < 2 powi (\<lfloor>log 2 x\<rfloor> + 1)"
    by (simp_all only: two_powr_powi)
qed

lemma binade_unique:
  assumes "0 < x" and "2 powi e \<le> x" and "x < 2 powi (e + 1)"
  shows "\<lfloor>log 2 x\<rfloor> = e"
proof -
  have "2 powr (of_int e) \<le> x \<and> x < 2 powr (of_int (e + 1))"
    using assms by (simp only: two_powr_powi)
  then show ?thesis
    using floor_log_eq_powr_iff [of x 2 e] assms(1) by simp
qed

lemma b64_quantum_pos [simp]: "0 < b64_quantum x"
  by (simp add: b64_quantum_def)

lemma b64_quantum_abs [simp]: "b64_quantum (- x) = b64_quantum x"
  by (simp add: b64_quantum_def)

lemma b64_minus: "b64 (- x) = - b64 x"
  by (simp add: b64_def round_half_even_minus)

lemma b64_zero [simp]: "b64 0 = 0"
  by (simp add: b64_def)

text \<open>The scaled significand of a positive number lies between \<open>2^52\<close> and \<open>2^53\<close>.\<close>

lemma significand_bounds:
  assumes "0 < x"
  shows "2 ^ 52 \<le> x / b64_quantum x" and "x / b64_quantum x < 2 ^ 53"
proof -
  define e where "e = \<lfloor>log 2 x\<rfloor>"
  have q: "b64_quantum x = 2 powi (e - 52)"
    using assms by (simp add: b64_quantum_def e_def)
  have lo: "2 powi e \<le> x" and hi: "x < 2 powi (e + 1)"
    using binade [OF assms] by (simp_all add: e_def)
  have e1: "(2::real) powi e = 2 ^ 52 * 2 powi (e - 52)"
    by (simp add: power_int_diff)
  have e2: "(2::real) powi (e + 1) = 2 ^ 53 * 2 powi (e - 52)"
    by (simp add: power_int_diff power_int_add)
  show "2 ^ 52 \<le> x / b64_quantum x"
    using lo unfolding q e1 by (simp add: pos_le_divide_eq)
  show "x / b64_quantum x < 2 ^ 53"
    using hi unfolding q e2 by (simp add: pos_divide_less_eq)
qed

lemma b64_pos_bounds:
  assumes "0 < x"
  shows "2 powi \<lfloor>log 2 x\<rfloor> \<le> b64 x" and "b64 x \<le> 2 powi (\<lfloor>log 2 x\<rfloor> + 1)"
proof -
  define e where "e = \<lfloor>log 2 x\<rfloor>"
  define n where "n = round_half_even (x / b64_quantum x)"
  have q: "b64_quantum x = 2 powi (e - 52)"
    using assms by (simp add: b64_quantum_def e_def)
  have b: "b64 x = of_int n * 2 powi (e - 52)"
    using assms by (simp add: b64_def n_def q)
  have "(2::int) ^ 52 \<le> n"
    unfolding n_def using significand_bounds(1) [OF assms] by (intro round_half_even_ge) simp
  then have n_lo: "(2::real) ^ 52 \<le> of_int n"
    by (metis of_int_le_iff of_int_numeral of_int_power)
  have "n \<le> (2::int) ^ 53"
    unfolding n_def using significand_bounds(2) [OF assms] by (intro round_half_even_le) simp
  then have n_hi: "of_int n \<le> (2::real) ^ 53"
    by (metis of_int_le_iff of_int_numeral of_int_power)
  have e1: "(2::real) powi e = 2 ^ 52 * 2 powi (e - 52)"
    by (simp add: power_int_diff)
  have e2: "(2::real) powi (e + 1) = 2 ^ 53 * 2 powi (e - 52)"
    by (simp add: power_int_diff power_int_add)
  show "2 powi \<lfloor>log 2 x\<rfloor> \<le> b64 x"
    unfolding e_def [symmetric] b e1 using n_lo by (intro mult_right_mono) simp_all
  show "b64 x \<le> 2 powi (\<lfloor>log 2 x\<rfloor> + 1)"
    unfolding e_def [symmetric] b e2 using n_hi by (intro mult_right_mono) simp_all
qed

lemma b64_pos: "0 < x \<Longrightarrow> 0 < b64 x"
  using b64_pos_bounds(1) [of x] zero_less_power_int [of "2::real" "\<lfloor>log 2 x\<rfloor>"]
  by linarith

lemma b64_mono_pos:
  assumes "0 < x" and "x \<le> y"
  shows "b64 x \<le> b64 y"
proof (cases "\<lfloor>log 2 x\<rfloor> = \<lfloor>log 2 y\<rfloor>")
  case True
  from assms have y: "0 < y" by simp
  have q: "b64_quantum x = b64_quantum y"
    using assms y True by (simp add: b64_quantum_def)
  have "x / b64_quantum y \<le> y / b64_quantum y"
    using assms(2) by (intro divide_right_mono) (simp_all add: less_imp_le)
  then have "round_half_even (x / b64_quantum y) \<le> round_half_even (y / b64_quantum y)"
    by (rule round_half_even_mono)
  then show ?thesis
    using assms y by (simp add: b64_def q)
next
  case False
  from assms have y: "0 < y" by simp
  have "log 2 x \<le> log 2 y" using assms by simp
  then have "\<lfloor>log 2 x\<rfloor> \<le> \<lfloor>log 2 y\<rfloor>" by (rule floor_mono)
  with False have "\<lfloor>log 2 x\<rfloor> + 1 \<le> \<lfloor>log 2 y\<rfloor>" by simp
  then have "(2::real) powi (\<lfloor>log 2 x\<rfloor> + 1) \<le> 2 powi \<lfloor>log 2 y\<rfloor>"
    by (intro power_int_increasing) simp_all
  with b64_pos_bounds(2) [OF assms(1)] b64_pos_bounds(1) [OF y] show ?thesis by linarith
qed

lemma b64_mono:
  assumes "x \<le> y"
  shows "b64 x \<le> b64 y"
proof -
  consider "0 < x" | "x = 0" | "x < 0" by linarith
  then show ?thesis
  proof cases
    case 1
    then show ?thesis using assms by (rule b64_mono_pos)
  next
    case 2
    with assms have "y = 0 \<or> 0 < y" by linarith
    with 2 show ?thesis using b64_pos [of y] by auto
  next
    case 3
    consider "0 < y" | "y = 0" | "y < 0" by linarith
    then show ?thesis
    proof cases
      case 1
      have "b64 x = - b64 (- x)" using b64_minus [of "- x"] by simp
      moreover have "0 < b64 (- x)" using 3 by (intro b64_pos) simp
      ultimately show ?thesis using b64_pos [OF 1] by linarith
    next
      case 2
      have "b64 x = - b64 (- x)" using b64_minus [of "- x"] by simp
      moreover have "0 < b64 (- x)" using 3 by (intro b64_pos) simp
      ultimately show ?thesis using 2 by simp
    next
      case 3
      have "b64 (- y) \<le> b64 (- x)"
        using 3 assms by (intro b64_mono_pos) simp_all
      then show ?thesis by (simp add: b64_minus)
    qed
  qed
qed

text \<open>
  Evaluation of \<open>b64\<close> at a number whose binade is known, and the values used below.
\<close>

lemma b64_eval:
  assumes "0 < x" and "2 powi e \<le> x" and "x < 2 powi (e + 1)"
      and "of_int n - 1 / 2 < x / 2 powi (e - 52)" and "x / 2 powi (e - 52) < of_int n + 1 / 2"
  shows "b64 x = of_int n * 2 powi (e - 52)"
proof -
  have "\<lfloor>log 2 x\<rfloor> = e" using assms(1-3) by (rule binade_unique)
  then have q: "b64_quantum x = 2 powi (e - 52)"
    using assms(1) by (simp add: b64_quantum_def)
  have "round_half_even (x / 2 powi (e - 52)) = n"
    using assms(4,5) by (rule round_half_even_near)
  then show ?thesis using assms(1) by (simp add: b64_def q)
qed

lemma b64_one: "b64 1 = 1"
  using b64_eval [of 1 0 "2 ^ 52"] by simp

lemma b64_quarter: "b64 (1 / 4) = 1 / 4"
  using b64_eval [of "1 / 4" "- 2" "2 ^ 52"] by simp

lemma b64_25e15: "b64 25000000000000000 = 25000000000000000"
  using b64_eval [of 25000000000000000 54 6250000000000000] by simp

lemma b64_absorb:
  assumes "0 \<le> w" and "w \<le> 1"
  shows "b64 (w + 25000000000000000) = 25000000000000000"
proof -
  have "b64 (w + 25000000000000000) = of_int 6250000000000000 * 2 powi (54 - 52)"
    using assms by (intro b64_eval) simp_all
  then show ?thesis by simp
qed

lemma b64_unit_interval:
  assumes "0 < w" and "w \<le> 1"
  shows "0 < b64 w" and "b64 w \<le> 1"
proof -
  show "0 < b64 w" using assms(1) by (rule b64_pos)
  have "b64 w \<le> b64 1" using assms(2) by (rule b64_mono)
  then show "b64 w \<le> 1" by (simp add: b64_one)
qed

lemma b64_eval_round:
  assumes "0 < x" and "2 powi e \<le> x" and "x < 2 powi (e + 1)"
      and "round_half_even (x / 2 powi (e - 52)) = n"
  shows "b64 x = of_int n * 2 powi (e - 52)"
proof -
  have "\<lfloor>log 2 x\<rfloor> = e" using assms(1-3) by (rule binade_unique)
  then have q: "b64_quantum x = 2 powi (e - 52)"
    using assms(1) by (simp add: b64_quantum_def)
  show ?thesis using assms(1,4) by (simp add: b64_def q)
qed

lemma b64_35: "b64 (35 / 100) = 6305039478318694 / 2 ^ 54"
  using b64_eval [of "35 / 100" "- 2" 6305039478318694] by simp

lemma b64_20: "b64 (20 / 100) = 7205759403792794 / 2 ^ 55"
  using b64_eval [of "20 / 100" "- 3" 7205759403792794] by simp

lemma b64_55: "b64 (6305039478318694 / 2 ^ 54 + 7205759403792794 / 2 ^ 55)
               = 4953959590107546 / 2 ^ 53"
proof -
  have "round_half_even ((6305039478318694 / 2 ^ 54 + 7205759403792794 / 2 ^ 55) / 2 powi (- 1 - 52))
        = 4953959590107546"
    by (simp add: round_half_even_def Let_def)
  from b64_eval_round [OF _ _ _ this] show ?thesis by simp
qed

text \<open>Rounding a binary64 number again changes nothing.\<close>

lemma two_powi_succ: "(2::real) powi (k + 1) = 2 * 2 powi k"
  using power_int_add [of "2::real" k 1] by simp

lemma b64_idem_pos:
  assumes "0 < x"
  shows "b64 (b64 x) = b64 x"
proof -
  define e where "e = \<lfloor>log 2 x\<rfloor>"
  define n where "n = round_half_even (x / b64_quantum x)"
  have q: "b64_quantum x = 2 powi (e - 52)"
    using assms by (simp add: b64_quantum_def e_def)
  have y: "b64 x = of_int n * 2 powi (e - 52)"
    using assms by (simp add: b64_def n_def q)
  have "(2::int) ^ 52 \<le> n"
    unfolding n_def using significand_bounds(1) [OF assms] by (intro round_half_even_ge) simp
  then have n_lo: "(2::real) ^ 52 \<le> of_int n"
    by (metis of_int_le_iff of_int_numeral of_int_power)
  have n_hi_int: "n \<le> (2::int) ^ 53"
    unfolding n_def using significand_bounds(2) [OF assms] by (intro round_half_even_le) simp
  have e1: "(2::real) powi e = 2 ^ 52 * 2 powi (e - 52)"
    by (simp add: power_int_diff)
  have e2: "(2::real) powi (e + 1) = 2 ^ 53 * 2 powi (e - 52)"
    by (simp add: power_int_diff power_int_add)
  have ypos: "0 < b64 x" using assms by (rule b64_pos)
  show ?thesis
  proof (cases "n = 2 ^ 53")
    case True
    then have y': "b64 x = 2 powi (e + 1)" by (simp add: y e2)
    have e3: "(2::real) powi (e + 1 + 1) = 2 * 2 powi (e + 1)"
      by (rule two_powi_succ)
    have e4: "(2::real) powi (e + 1) = 2 ^ 52 * 2 powi (e + 1 - 52)"
      by (simp add: power_int_diff two_powi_succ)
    have "b64 (b64 x) = of_int (2 ^ 52) * 2 powi (e + 1 - 52)"
    proof (rule b64_eval)
      show "0 < b64 x" by (rule ypos)
      show "2 powi (e + 1) \<le> b64 x" by (simp add: y')
      show "b64 x < 2 powi (e + 1 + 1)" unfolding e3 y' by simp
      have "b64 x / 2 powi (e + 1 - 52) = 2 ^ 52"
        unfolding y' by (subst e4) simp
      then show "real_of_int (2 ^ 52) - 1 / 2 < b64 x / 2 powi (e + 1 - 52)"
        and "b64 x / 2 powi (e + 1 - 52) < real_of_int (2 ^ 52) + 1 / 2"
        by simp_all
    qed
    then show ?thesis unfolding y' using e4 by simp
  next
    case False
    with n_hi_int have "n < 2 ^ 53" by simp
    then have n_hi: "of_int n < (2::real) ^ 53"
      by (metis of_int_less_iff of_int_numeral of_int_power)
    have "b64 (b64 x) = of_int n * 2 powi (e - 52)"
    proof (rule b64_eval)
      show "0 < b64 x" by (rule ypos)
      show "2 powi e \<le> b64 x"
        unfolding y e1 using n_lo by (intro mult_right_mono) simp_all
      show "b64 x < 2 powi (e + 1)"
        unfolding y e2 using n_hi by (intro mult_strict_right_mono) simp_all
      have "b64 x / 2 powi (e - 52) = of_int n" by (simp add: y)
      then show "real_of_int n - 1 / 2 < b64 x / 2 powi (e - 52)"
        and "b64 x / 2 powi (e - 52) < real_of_int n + 1 / 2"
        by simp_all
    qed
    then show ?thesis by (simp add: y)
  qed
qed

lemma b64_idem: "b64 (b64 x) = b64 x"
proof -
  consider "0 < x" | "x = 0" | "x < 0" by linarith
  then show ?thesis
  proof cases
    case 1
    then show ?thesis by (rule b64_idem_pos)
  next
    case 2
    then show ?thesis by simp
  next
    case 3
    then have "b64 (b64 (- x)) = b64 (- x)" by (intro b64_idem_pos) simp
    then show ?thesis by (simp add: b64_minus)
  qed
qed

text \<open>The relative error of one rounding is at most \<open>2^-53\<close>.\<close>

lemma round_half_even_err: "\<bar>of_int (round_half_even y) - y\<bar> \<le> 1 / 2"
proof -
  have f: "of_int \<lfloor>y\<rfloor> \<le> y" "y < of_int \<lfloor>y\<rfloor> + 1" by linarith+
  show ?thesis
  proof (cases "y - of_int \<lfloor>y\<rfloor> < 1 / 2")
    case True
    then have "round_half_even y = \<lfloor>y\<rfloor>" by (simp add: round_half_even_def Let_def)
    with True f show ?thesis by simp
  next
    case False
    then have "round_half_even y = \<lfloor>y\<rfloor> \<and> y - of_int \<lfloor>y\<rfloor> = 1 / 2
               \<or> round_half_even y = \<lfloor>y\<rfloor> + 1"
      by (simp add: round_half_even_def Let_def)
    with False f show ?thesis by auto
  qed
qed

lemma b64_err_pos:
  assumes "0 < x"
  shows "\<bar>b64 x - x\<bar> \<le> x / 2 ^ 53"
proof -
  define q where "q = b64_quantum x"
  define n where "n = round_half_even (x / q)"
  have qpos: "0 < q" by (simp add: q_def)
  have b: "b64 x = of_int n * q" using assms by (simp add: b64_def n_def q_def)
  have "2 ^ 52 \<le> x / q" unfolding q_def using assms by (rule significand_bounds(1))
  then have qx: "2 ^ 52 * q \<le> x" using qpos by (simp add: pos_le_divide_eq)
  have "\<bar>of_int n - x / q\<bar> \<le> 1 / 2" unfolding n_def by (rule round_half_even_err)
  then have "\<bar>of_int n - x / q\<bar> * q \<le> 1 / 2 * q"
    using qpos by (intro mult_right_mono) simp_all
  moreover have "\<bar>of_int n - x / q\<bar> * q = \<bar>of_int n * q - x\<bar>"
  proof -
    have "\<bar>of_int n - x / q\<bar> * q = \<bar>(of_int n - x / q) * q\<bar>"
      using qpos by (simp add: abs_mult)
    also have "(of_int n - x / q) * q = of_int n * q - x"
      using qpos by (simp add: algebra_simps)
    finally show ?thesis .
  qed
  ultimately have "\<bar>b64 x - x\<bar> \<le> q / 2" by (simp add: b)
  moreover have "q / 2 \<le> x / 2 ^ 53" using qx by simp
  ultimately show ?thesis by linarith
qed

lemma b64_err: "\<bar>b64 x - x\<bar> \<le> \<bar>x\<bar> / 2 ^ 53"
proof -
  consider "0 < x" | "x = 0" | "x < 0" by linarith
  then show ?thesis
  proof cases
    case 1
    then show ?thesis using b64_err_pos [of x] by simp
  next
    case 2
    then show ?thesis by simp
  next
    case 3
    then have "\<bar>b64 (- x) - (- x)\<bar> \<le> (- x) / 2 ^ 53" by (intro b64_err_pos) simp
    with 3 show ?thesis by (simp add: b64_minus)
  qed
qed

lemma add64_bound:
  assumes "\<bar>x + y\<bar> \<le> B"
  shows "\<bar>add64 x y - (x + y)\<bar> \<le> B / 2 ^ 53" and "\<bar>add64 x y\<bar> \<le> B + B / 2 ^ 53"
proof -
  have "\<bar>b64 (x + y) - (x + y)\<bar> \<le> \<bar>x + y\<bar> / 2 ^ 53" by (rule b64_err)
  also have "\<dots> \<le> B / 2 ^ 53" using assms by (simp add: divide_right_mono)
  finally show 1: "\<bar>add64 x y - (x + y)\<bar> \<le> B / 2 ^ 53" by (simp add: add64_def)
  from 1 assms show "\<bar>add64 x y\<bar> \<le> B + B / 2 ^ 53" by linarith
qed

lemma mul64_abs_le:
  assumes "0 \<le> k" and "k \<le> 1 / 2"
  shows "\<bar>mul64 k z\<bar> \<le> \<bar>z\<bar>"
proof -
  define p where "p = k * z"
  have "\<bar>b64 p - p\<bar> \<le> \<bar>p\<bar> / 2 ^ 53" by (rule b64_err)
  also have "\<dots> \<le> \<bar>p\<bar> / 1" by (intro divide_left_mono) simp_all
  finally have e: "\<bar>b64 p - p\<bar> \<le> \<bar>p\<bar>" by simp
  have "\<bar>p\<bar> = k * \<bar>z\<bar>" using assms(1) by (simp add: p_def abs_mult)
  also have "\<dots> \<le> 1 / 2 * \<bar>z\<bar>" using assms(2) by (intro mult_right_mono) simp_all
  finally have "2 * \<bar>p\<bar> \<le> \<bar>z\<bar>" by simp
  with e have "\<bar>b64 p\<bar> \<le> \<bar>z\<bar>" by linarith
  then show ?thesis by (simp add: mul64_def p_def)
qed

lemma add64_mono: "a \<le> b \<Longrightarrow> add64 a c \<le> add64 b c"
  by (simp add: add64_def b64_mono)

text \<open>
  The three additions of the weighted sum, once from the mode term \<open>a\<close> and once from
  zero: each rounding moves the sum by at most \<open>2^-53\<close> of its magnitude, so the two
  results differ by 0.35 up to six such errors and the error of the literal.
\<close>

lemma add64_step:
  assumes "\<bar>x\<bar> \<le> X" and "\<bar>y\<bar> \<le> Y"
  shows "- ((X + Y) / 9007199254740992) \<le> add64 x y - (x + y)"
    and "add64 x y - (x + y) \<le> (X + Y) / 9007199254740992"
    and "\<bar>add64 x y\<bar> \<le> X + Y + (X + Y) / 9007199254740992"
proof -
  from assms have B: "\<bar>x + y\<bar> \<le> X + Y" by linarith
  have p: "(2::real) ^ 53 = 9007199254740992" by simp
  note e = add64_bound [OF B, unfolded p]
  from e(1) show "- ((X + Y) / 9007199254740992) \<le> add64 x y - (x + y)"
    and "add64 x y - (x + y) \<le> (X + Y) / 9007199254740992"
    by (simp_all only: abs_le_iff) linarith+
  from e(2) show "\<bar>add64 x y\<bar> \<le> X + Y + (X + Y) / 9007199254740992" .
qed

lemma valence_sum_err:
  fixes a t2 t3 t4 :: real
  assumes "0 \<le> a" and "a \<le> 1" and "\<bar>a - 35 / 100\<bar> \<le> 1 / 2 ^ 53"
  shows "\<bar>add64 (add64 (add64 a t2) t3) t4 - add64 (add64 (add64 0 t2) t3) t4 - 35 / 100\<bar>
         \<le> (1 + \<bar>t2\<bar> + \<bar>t3\<bar> + \<bar>t4\<bar>) / 2 ^ 50"
proof -
  define T2 where "T2 = \<bar>t2\<bar>"
  define T3 where "T3 = \<bar>t3\<bar>"
  define T4 where "T4 = \<bar>t4\<bar>"
  define B1 where "B1 = 1 + T2"
  define K1 where "K1 = B1 + B1 / 9007199254740992"
  define B2 where "B2 = K1 + T3"
  define K2 where "K2 = B2 + B2 / 9007199254740992"
  define B3 where "B3 = K2 + T4"
  define s1 where "s1 = add64 a t2"
  define s2 where "s2 = add64 s1 t3"
  define s3 where "s3 = add64 s2 t4"
  define r1 where "r1 = add64 0 t2"
  define r2 where "r2 = add64 r1 t3"
  define r3 where "r3 = add64 r2 t4"
  have T: "0 \<le> T2" "0 \<le> T3" "0 \<le> T4" by (simp_all add: T2_def T3_def T4_def)
  have a1: "\<bar>a\<bar> \<le> 1" using assms(1,2) by simp
  have z1: "\<bar>0::real\<bar> \<le> 1" by simp
  have t2: "\<bar>t2\<bar> \<le> T2" and t3: "\<bar>t3\<bar> \<le> T3" and t4: "\<bar>t4\<bar> \<le> T4"
    by (simp_all add: T2_def T3_def T4_def)
  note S1 = add64_step [OF a1 t2, folded s1_def B1_def]
  have s1b: "\<bar>s1\<bar> \<le> K1" using S1(3) by (simp add: K1_def)
  note S2 = add64_step [OF s1b t3, folded s2_def B2_def]
  have s2b: "\<bar>s2\<bar> \<le> K2" using S2(3) by (simp add: K2_def)
  note S3 = add64_step [OF s2b t4, folded s3_def B3_def]
  note R1 = add64_step [OF z1 t2, folded r1_def B1_def]
  have r1b: "\<bar>r1\<bar> \<le> K1" using R1(3) by (simp add: K1_def)
  note R2 = add64_step [OF r1b t3, folded r2_def B2_def]
  have r2b: "\<bar>r2\<bar> \<le> K2" using R2(3) by (simp add: K2_def)
  note R3 = add64_step [OF r2b t4, folded r3_def B3_def]
  have p: "(2::real) ^ 53 = 9007199254740992" by simp
  have a_lo: "- (1 / 9007199254740992) \<le> a - 35 / 100"
    and a_hi: "a - 35 / 100 \<le> 1 / 9007199254740992"
    using assms(3) unfolding p by (simp_all only: abs_le_iff) linarith+
  define D where "D = (2 * (B1 + B2 + B3) + 1) / 9007199254740992"
  have lo: "- D \<le> s3 - r3 - 35 / 100"
    unfolding D_def using S1(1) S2(1) S3(1) R1(2) R2(2) R3(2) a_lo by (simp add: field_simps)
  have hi: "s3 - r3 - 35 / 100 \<le> D"
    unfolding D_def using S1(2) S2(2) S3(2) R1(1) R2(1) R3(1) a_hi by (simp add: field_simps)
  have DE: "D \<le> (1 + T2 + T3 + T4) / 2 ^ 50"
  proof -
    have q: "(2::real) ^ 50 = 1125899906842624" by simp
    show ?thesis
      unfolding D_def B3_def K2_def B2_def K1_def B1_def q using T
      by (simp add: add_divide_distrib algebra_simps)
  qed
  from lo hi DE have "\<bar>s3 - r3 - 35 / 100\<bar> \<le> (1 + T2 + T3 + T4) / 2 ^ 50"
    by (simp only: abs_le_iff) linarith
  then show ?thesis
    by (simp only: s3_def s2_def s1_def r3_def r2_def r1_def T2_def T3_def T4_def)
qed

lemma b64_weight_35:
  "0 \<le> b64 (35 / 100)" "b64 (35 / 100) \<le> 1" "\<bar>b64 (35 / 100) - 35 / 100\<bar> \<le> 1 / 2 ^ 53"
proof -
  have "0 < b64 (35 / 100)" "b64 (35 / 100) \<le> 1"
    by (rule b64_unit_interval; simp)+
  then show "0 \<le> b64 (35 / 100)" "b64 (35 / 100) \<le> 1" by simp_all
  have "\<bar>b64 (35 / 100) - 35 / 100\<bar> \<le> \<bar>35 / 100\<bar> / 2 ^ 53" by (rule b64_err)
  also have "\<dots> \<le> 1 / 2 ^ 53" by (intro divide_right_mono) simp_all
  finally show "\<bar>b64 (35 / 100) - 35 / 100\<bar> \<le> 1 / 2 ^ 53" .
qed

lemma b64_weight_small:
  assumes "0 < k" and "k \<le> 1 / 4"
  shows "0 \<le> b64 k" and "b64 k \<le> 1 / 2"
proof -
  show "0 \<le> b64 k" using b64_pos [OF assms(1)] by simp
  have "b64 k \<le> b64 (1 / 4)" using assms(2) by (rule b64_mono)
  then show "b64 k \<le> 1 / 2" by (simp add: b64_quarter)
qed

lemma valence_raw_b64_mode:
  assumes "np_mean_b64 (take 5 xs) = Num m"
  shows "\<exists>mi ma. valence_raw_b64 ''minor'' c v xs = Num mi
             \<and> valence_raw_b64 ''major'' c v xs = Num ma
             \<and> mi \<le> ma
             \<and> \<bar>ma - mi - 35 / 100\<bar> \<le> (1 + \<bar>c\<bar> + \<bar>v\<bar> + \<bar>m\<bar>) / 2 ^ 50"
proof -
  define a where "a = b64 (35 / 100)"
  define t2 where "t2 = mul64 (b64 (25 / 100)) c"
  define t3 where "t3 = mul64 (b64 (20 / 100)) v"
  define t4 where "t4 = mul64 (b64 (20 / 100)) m"
  define mi where "mi = add64 (add64 (add64 0 t2) t3) t4"
  define ma where "ma = add64 (add64 (add64 a t2) t3) t4"
  have ne: "(''minor'' = ''major'') = False" by simp
  have one: "mul64 (b64 (35 / 100)) 1 = a" by (simp add: mul64_def a_def b64_idem)
  have zero: "mul64 (b64 (35 / 100)) 0 = 0" by (simp add: mul64_def)
  have minor: "valence_raw_b64 ''minor'' c v xs = Num mi"
    unfolding valence_raw_b64_def Let_def assms mi_def t2_def t3_def t4_def
    by (simp only: ne if_False zero pyfloat.case)
  have major: "valence_raw_b64 ''major'' c v xs = Num ma"
    unfolding valence_raw_b64_def Let_def assms ma_def t2_def t3_def t4_def
    by (simp only: if_True one pyfloat.case refl)
  have a: "0 \<le> a" "a \<le> 1" "\<bar>a - 35 / 100\<bar> \<le> 1 / 2 ^ 53"
    unfolding a_def by (rule b64_weight_35)+
  have le: "mi \<le> ma"
    unfolding mi_def ma_def using a(1) by (intro add64_mono) simp
  have k25: "0 \<le> b64 (25 / 100)" "b64 (25 / 100) \<le> 1 / 2"
    by (rule b64_weight_small; simp)+
  have k20: "0 \<le> b64 (20 / 100)" "b64 (20 / 100) \<le> 1 / 2"
    by (rule b64_weight_small; simp)+
  have "\<bar>t2\<bar> \<le> \<bar>c\<bar>" unfolding t2_def using k25 by (rule mul64_abs_le)
  moreover have "\<bar>t3\<bar> \<le> \<bar>v\<bar>" unfolding t3_def using k20 by (rule mul64_abs_le)
  moreover have "\<bar>t4\<bar> \<le> \<bar>m\<bar>" unfolding t4_def using k20 by (rule mul64_abs_le)
  ultimately have "(1 + \<bar>t2\<bar> + \<bar>t3\<bar> + \<bar>t4\<bar>) / 2 ^ 50 \<le> (1 + \<bar>c\<bar> + \<bar>v\<bar> + \<bar>m\<bar>) / 2 ^ 50"
    by (intro divide_right_mono) simp_all
  moreover have "\<bar>ma - mi - 35 / 100\<bar> \<le> (1 + \<bar>t2\<bar> + \<bar>t3\<bar> + \<bar>t4\<bar>) / 2 ^ 50"
    unfolding ma_def mi_def using a by (rule valence_sum_err)
  ultimately have "\<bar>ma - mi - 35 / 100\<bar> \<le> (1 + \<bar>c\<bar> + \<bar>v\<bar> + \<bar>m\<bar>) / 2 ^ 50"
    by (rule order_trans [rotated])
  with minor major le show ?thesis by blast
qed

text \<open>
  For ordinary inputs the rounded difference is one unit in the last place off 0.35;
  for a large centroid term the mode term is absorbed altogether.
\<close>

lemma valence_raw_b64_unit:
  "valence_raw_b64 ''major'' 0 1 [0, 0, 0, 0, 0] = Num (4953959590107546 / 2 ^ 53)
   \<and> valence_raw_b64 ''minor'' 0 1 [0, 0, 0, 0, 0] = Num (7205759403792794 / 2 ^ 55)"
proof -
  define W35 :: real where "W35 = 6305039478318694 / 2 ^ 54"
  define W20 :: real where "W20 = 7205759403792794 / 2 ^ 55"
  define S :: real where "S = 4953959590107546 / 2 ^ 53"
  have w35: "b64 (35 / 100) = W35" unfolding W35_def by (rule b64_35)
  have w20: "b64 (20 / 100) = W20" unfolding W20_def by (rule b64_20)
  have s: "b64 (W35 + W20) = S" unfolding W35_def W20_def S_def by (rule b64_55)
  have i35: "b64 W35 = W35" using b64_idem [of "35 / 100"] by (simp only: w35)
  have i20: "b64 W20 = W20" using b64_idem [of "20 / 100"] by (simp only: w20)
  have iS: "b64 S = S" using b64_idem [of "W35 + W20"] by (simp only: s)
  have m: "np_mean_b64 (take 5 [0, 0, 0, 0, 0]) = Num 0"
    by (simp add: np_mean_b64_def add64_def)
  have w35': "b64 (7 / 20) = W35" using w35 by simp
  have w20': "b64 (1 / 5) = W20" using w20 by simp
  have "valence_raw_b64 ''major'' 0 1 [0, 0, 0, 0, 0] = Num S"
    unfolding valence_raw_b64_def Let_def m
    by (simp add: mul64_def add64_def w35' w20' i35 i20 s iS)
  moreover have "valence_raw_b64 ''minor'' 0 1 [0, 0, 0, 0, 0] = Num W20"
    unfolding valence_raw_b64_def Let_def m
    by (simp add: mul64_def add64_def w35' w20' i35 i20)
  ultimately show ?thesis unfolding S_def W20_def by (rule conjI)
qed

lemma valence_raw_b64_absorbed:
  "valence_raw_b64 ''major'' 100000000000000000 0 [0, 0, 0, 0, 0] = Num 25000000000000000
   \<and> valence_raw_b64 ''minor'' 100000000000000000 0 [0, 0, 0, 0, 0] = Num 25000000000000000"
proof -
  define w where "w = b64 (b64 (35 / 100) * 1)"
  have w: "0 \<le> w" "w \<le> 1"
  proof -
    have "0 < b64 (35 / 100)" "b64 (35 / 100) \<le> 1"
      by (rule b64_unit_interval; simp)+
    then have "0 < b64 (b64 (35 / 100))" "b64 (b64 (35 / 100)) \<le> 1"
      by (rule b64_unit_interval)+
    then show "0 \<le> w" "w \<le> 1" by (simp_all add: w_def)
  qed
  have m: "np_mean_b64 (take 5 [0, 0, 0, 0, 0]) = Num 0"
    by (simp add: np_mean_b64_def add64_def)
  have t2: "mul64 (b64 (25 / 100)) 100000000000000000 = 25000000000000000"
    by (simp add: mul64_def b64_quarter b64_25e15)
  have major: "add64 (mul64 (b64 (35 / 100)) 1) 25000000000000000 = 25000000000000000"
    unfolding add64_def mul64_def w_def [symmetric] using w by (rule b64_absorb)
  have minor: "add64 (mul64 (b64 (35 / 100)) 0) 25000000000000000 = 25000000000000000"
    by (simp add: add64_def mul64_def b64_25e15)
  have z: "mul64 (b64 (20 / 100)) 0 = 0" by (simp add: mul64_def)
  have k: "add64 25000000000000000 0 = 25000000000000000" by (simp add: add64_def b64_25e15)
  have "valence_raw_b64 ''major'' 100000000000000000 0 [0, 0, 0, 0, 0] = Num 25000000000000000"
    unfolding valence_raw_b64_def Let_def m
    by (simp only: t2 major z k pyfloat.case if_True refl)
  moreover
  have "valence_raw_b64 ''minor'' 100000000000000000 0 [0, 0, 0, 0, 0] = Num 25000000000000000"
  proof -
    have ne: "(''minor'' = ''major'') = False" by simp
    show ?thesis
      unfolding valence_raw_b64_def Let_def m by (simp only: ne t2 minor z k pyfloat.case if_False)
  qed
  ultimately show ?thesis by (rule conjI)
qed

text \<open>With \<open>min_val\<close> at most \<open>max_val\<close> the rounded divisor of \<open>normalize\<close> is positive.\<close>

lemma normalize_b64_divisor_pos:
  assumes "lo \<le> hi"
  shows "0 < add64 (sub64 hi lo) (b64 (1 / 1000000000))"
proof -
  have "0 \<le> sub64 hi lo"
    using b64_mono [of 0 "hi - lo"] assms by (simp add: sub64_def)
  moreover have "0 < b64 (1 / 1000000000)" by (intro b64_pos) simp
  ultimately have "0 < sub64 hi lo + b64 (1 / 1000000000)" by linarith
  then show ?thesis unfolding add64_def by (rule b64_pos)
qed

subsection \<open>C6: fallback for the auxiliary models\<close>

text \<open>
  C6. When the high-level stage fails, the handler substitutes 0.5 for both
  \<open>energy_model\<close> and \<open>valence_model\<close>, and a stage that succeeds hands on its two values
  unchanged. The failure does not reach the caller: with the fixed reference ranges
  \<open>normalize\<close> never raises, so \<open>analyze\<close> returns a result, and after a failure that
  result carries the valence scored at \<open>valence_model = 0.5\<close> and the arousal scored at
  \<open>energy_model = 0.5\<close>, where after a success it carries the scores at the values
  supplied. Consequently a call in which the stage fails returns what a call returns in
  which the stage supplies 0.5 for both.
\<close>

theorem C6_fallback_equivalence:
  "high_level None = (Num (5 / 10), Num (5 / 10))
   \<and> high_level (Some (e, v)) = (e, v)
   \<and> analyze f None = analyze f (Some (Num (5 / 10), Num (5 / 10)))
   \<and> (\<exists>bpm_n loud_n cent_n flux_n.
         normalize (d_bpm f) (Num 60) (Num 200) = Inr bpm_n
       \<and> normalize (d_loudness f) (Num (- 60)) (Num 0) = Inr loud_n
       \<and> normalize (d_spectral_centroid f) (Num 500) (Num 5000) = Inr cent_n
       \<and> normalize (d_spectral_flux f) (Num 0) (Num 1) = Inr flux_n
       \<and> analyze f None =
           Inr \<lparr> r_bpm = py_round (d_bpm f) 1,
                 r_loudness = py_round (d_loudness f) 2,
                 r_spectral_centroid = py_round (d_spectral_centroid f) 1,
                 r_spectral_flux = py_round (d_spectral_flux f) 3,
                 r_key = d_key f,
                 r_mode = d_scale f,
                 r_valence =
                   py_round (compute_valence (d_scale f) cent_n (Num (5 / 10)) (d_mfcc f)) 3,
                 r_arousal =
                   py_round (compute_arousal bpm_n loud_n flux_n (Num (5 / 10))) 3 \<rparr>
       \<and> analyze f (Some (e, v)) =
           Inr \<lparr> r_bpm = py_round (d_bpm f) 1,
                 r_loudness = py_round (d_loudness f) 2,
                 r_spectral_centroid = py_round (d_spectral_centroid f) 1,
                 r_spectral_flux = py_round (d_spectral_flux f) 3,
                 r_key = d_key f,
                 r_mode = d_scale f,
                 r_valence = py_round (compute_valence (d_scale f) cent_n v (d_mfcc f)) 3,
                 r_arousal = py_round (compute_arousal bpm_n loud_n flux_n e) 3 \<rparr>)"
proof -
  obtain bpm_n where n1: "normalize (d_bpm f) (Num 60) (Num 200) = Inr bpm_n"
    by (simp add: normalize_fixed)
  obtain loud_n where n2: "normalize (d_loudness f) (Num (- 60)) (Num 0) = Inr loud_n"
    by (simp add: normalize_fixed)
  obtain cent_n where n3: "normalize (d_spectral_centroid f) (Num 500) (Num 5000) = Inr cent_n"
    by (simp add: normalize_fixed)
  obtain flux_n where n4: "normalize (d_spectral_flux f) (Num 0) (Num 1) = Inr flux_n"
    by (simp add: normalize_fixed)
  have mv: "mood_vector f en va =
            Inr (compute_valence (d_scale f) cent_n va (d_mfcc f),
                 compute_arousal bpm_n loud_n flux_n en)" for en va
    by (simp add: mood_vector_def n1 n2 n3 n4)
  have h1: "high_level None = (Num (5 / 10), Num (5 / 10))"
    and h2: "high_level (Some (e, v)) = (e, v)"
    by (simp_all add: high_level_def)
  have a1: "analyze f None = analyze f (Some (Num (5 / 10), Num (5 / 10)))"
    by (simp add: analyze_def high_level_def)
  show ?thesis
    apply (intro conjI h1 h2 a1)
    apply (rule exI [of _ bpm_n], rule exI [of _ loud_n],
           rule exI [of _ cent_n], rule exI [of _ flux_n])
    apply (simp add: n1 n2 n3 n4 analyze_def high_level_def mv del: py_round.simps)
    done
qed

subsection \<open>C7: normalize\<close>

text \<open>
  The \<open>1e-9\<close> in the divisor protects the case of equal bounds only. When
  \<open>max_val - min_val\<close> is \<open>-1e-9\<close> the divisor is zero and the division raises: in exact
  arithmetic at \<open>min_val = 1e-9\<close>, \<open>max_val = 0\<close>, and in binary64 at the float nearest to
  \<open>1e-9\<close>, where \<open>0 - min_val\<close> is exact and a float added to its negation is zero.
\<close>

theorem C7_normalize_counterexample:
  "normalize (Num 0) (Num (1 / 1000000000)) (Num 0) = Inl ZeroDivisionError
   \<and> normalize_b64 0 (b64 (1 / 1000000000)) 0 = Inl ZeroDivisionError"
  by (simp add: normalize_def normalize_b64_def sub64_def add64_def b64_minus b64_idem)

text \<open>
  C7, as the code has it. For real \<open>x\<close>, \<open>lo\<close>, \<open>hi\<close> with \<open>lo\<close> at most \<open>hi\<close>, of magnitude
  at most \<open>1e100\<close> so that nothing overflows, \<open>normalize\<close> raises nothing. In exact
  arithmetic it returns \<open>(x - lo) / (hi - lo + 1e-9)\<close>, with equal bounds the large but
  finite value \<open>(x - lo) * 1e9\<close>; in binary64 the rounded divisor is positive and the
  result is the same expression with every operation rounded.
\<close>

theorem C7_normalize_formula:
  assumes "lo \<le> hi" and "\<bar>x\<bar> \<le> 10 ^ 100" and "\<bar>lo\<bar> \<le> 10 ^ 100" and "\<bar>hi\<bar> \<le> 10 ^ 100"
  shows "normalize (Num x) (Num lo) (Num hi) = Inr (Num ((x - lo) / (hi - lo + 1 / 1000000000)))
       \<and> normalize (Num x) (Num lo) (Num lo) = Inr (Num ((x - lo) * 1000000000))
       \<and> 0 < b64 (b64 (hi - lo) + b64 (1 / 1000000000))
       \<and> normalize_b64 x lo hi
           = Inr (b64 (b64 (x - lo) / b64 (b64 (hi - lo) + b64 (1 / 1000000000))))"
proof -
  from assms(1) have "hi - lo + 1 / 1000000000 \<noteq> 0" by simp
  then have "normalize (Num x) (Num lo) (Num hi)
             = Inr (Num ((x - lo) / (hi - lo + 1 / 1000000000)))"
    by (simp add: normalize_def)
  moreover have "normalize (Num x) (Num lo) (Num lo) = Inr (Num ((x - lo) * 1000000000))"
    by (simp add: normalize_def)
  moreover have pos: "0 < b64 (b64 (hi - lo) + b64 (1 / 1000000000))"
    using normalize_b64_divisor_pos [OF assms(1)] by (simp add: add64_def sub64_def)
  moreover have "normalize_b64 x lo hi
           = Inr (b64 (b64 (x - lo) / b64 (b64 (hi - lo) + b64 (1 / 1000000000))))"
    using pos by (simp add: normalize_b64_def Let_def add64_def sub64_def)
  ultimately show ?thesis by simp
qed

theorem C7_normalize_formula_witness:
  "(3::real) \<le> 3 \<and> \<bar>5::real\<bar> \<le> 10 ^ 100 \<and> \<bar>3::real\<bar> \<le> 10 ^ 100
   \<and> normalize (Num 5) (Num 3) (Num 3) = Inr (Num 2000000000)
   \<and> normalize_b64 5 3 3 = Inr (b64 (b64 2 / b64 (b64 (1 / 1000000000))))"
  using C7_normalize_formula [of 3 3 5] by simp

subsection \<open>C8: mode sensitivity\<close>

text \<open>
  In binary64 the two unclamped valences do not differ by exactly 0.35. With the
  centroid at 0, the valence model at 1 and five coefficients 0, major gives the float
  0.55 and minor the float 0.2, which are \<open>6305039478318695 / 2^54\<close> apart: one unit in
  the last place above the float 0.35, and not the decimal either. With the centroid at
  \<open>1e17\<close> the term \<open>0.25 * 1e17\<close> absorbs the mode term and both are \<open>2.5e16\<close>.
\<close>

theorem C8_mode_sensitivity_counterexample:
  "valence_raw_b64 ''major'' 0 1 [0, 0, 0, 0, 0] = Num (4953959590107546 / 2 ^ 53)
   \<and> valence_raw_b64 ''minor'' 0 1 [0, 0, 0, 0, 0] = Num (7205759403792794 / 2 ^ 55)
   \<and> 4953959590107546 / 2 ^ 53 - 7205759403792794 / 2 ^ 55 \<noteq> (35 / 100 :: real)
   \<and> 4953959590107546 / 2 ^ 53 - 7205759403792794 / 2 ^ 55 \<noteq> b64 (35 / 100)
   \<and> valence_raw_b64 ''major'' 100000000000000000 0 [0, 0, 0, 0, 0] = Num 25000000000000000
   \<and> valence_raw_b64 ''minor'' 100000000000000000 0 [0, 0, 0, 0, 0] = Num 25000000000000000"
proof -
  have "4953959590107546 / 2 ^ 53 - 7205759403792794 / 2 ^ 55 \<noteq> (35 / 100 :: real)"
    by simp
  moreover
  have "4953959590107546 / 2 ^ 53 - 7205759403792794 / 2 ^ 55 \<noteq> b64 (35 / 100)"
    unfolding b64_35 by simp
  ultimately show ?thesis
    using valence_raw_b64_unit valence_raw_b64_absorbed by blast
qed

text \<open>
  C8, as the code has it. Hold the normalised centroid \<open>c\<close>, the valence model \<open>v\<close> and at
  least five timbre coefficients fixed, all of magnitude at most \<open>1e100\<close> so that nothing
  overflows. In exact arithmetic the unclamped valence for major is the one for minor
  plus exactly 0.35. As computed in binary64 the unclamped valence for major is never
  below the one for minor, and the two differ by 0.35 up to rounding: by 0.35 to within
  \<open>2^-50 * (1 + |c| + |v| + |m|)\<close>, where \<open>m\<close> is the computed mean of the first five
  coefficients.
\<close>

theorem C8_mode_sensitivity:
  assumes "5 \<le> length xs" and "\<bar>c\<bar> \<le> 10 ^ 100" and "\<bar>v\<bar> \<le> 10 ^ 100"
      and "\<forall>x \<in> set xs. \<bar>x\<bar> \<le> 10 ^ 100"
  shows "(\<exists>r. valence_raw ''minor'' (Num c) (Num v) (map Num xs) = Num r
             \<and> valence_raw ''major'' (Num c) (Num v) (map Num xs) = Num (r + 35 / 100))
       \<and> (\<exists>m mi ma. np_mean_b64 (take 5 xs) = Num m
             \<and> valence_raw_b64 ''minor'' c v xs = Num mi
             \<and> valence_raw_b64 ''major'' c v xs = Num ma
             \<and> mi \<le> ma
             \<and> \<bar>ma - mi - 35 / 100\<bar> \<le> (1 + \<bar>c\<bar> + \<bar>v\<bar> + \<bar>m\<bar>) / 2 ^ 50)"
proof -
  from assms(1) have ne: "xs \<noteq> []" by auto
  then have "take 5 xs \<noteq> []" by (cases xs) simp_all
  then obtain m where m: "np_mean_b64 (take 5 xs) = Num m"
    by (simp add: np_mean_b64_def)
  have "\<exists>r. valence_raw ''minor'' (Num c) (Num v) (map Num xs) = Num r
           \<and> valence_raw ''major'' (Num c) (Num v) (map Num xs) = Num (r + 35 / 100)"
    by (simp add: valence_raw_Num [OF ne])
  moreover from valence_raw_b64_mode [OF m, of c v]
  have "\<exists>m mi ma. np_mean_b64 (take 5 xs) = Num m
             \<and> valence_raw_b64 ''minor'' c v xs = Num mi
             \<and> valence_raw_b64 ''major'' c v xs = Num ma
             \<and> mi \<le> ma
             \<and> \<bar>ma - mi - 35 / 100\<bar> \<le> (1 + \<bar>c\<bar> + \<bar>v\<bar> + \<bar>m\<bar>) / 2 ^ 50"
    using m by blast
  ultimately show ?thesis by (rule conjI)
qed

theorem C8_mode_sensitivity_witness:
  "5 \<le> length [1, 1, 1, 1, 1 :: real] \<and> \<bar>0 :: real\<bar> \<le> 10 ^ 100
   \<and> \<bar>1 :: real\<bar> \<le> 10 ^ 100
   \<and> (\<exists>r. valence_raw ''minor'' (Num 0) (Num 0) (map Num [1, 1, 1, 1, 1]) = Num r
         \<and> valence_raw ''major'' (Num 0) (Num 0) (map Num [1, 1, 1, 1, 1]) = Num (r + 35 / 100))
   \<and> (\<exists>m mi ma. np_mean_b64 (take 5 [1, 1, 1, 1, 1]) = Num m
         \<and> valence_raw_b64 ''minor'' 0 0 [1, 1, 1, 1, 1] = Num mi
         \<and> valence_raw_b64 ''major'' 0 0 [1, 1, 1, 1, 1] = Num ma
         \<and> mi \<le> ma
         \<and> \<bar>ma - mi - 35 / 100\<bar> \<le> (1 + \<bar>0\<bar> + \<bar>0\<bar> + \<bar>m\<bar>) / 2 ^ 50)"
  using C8_mode_sensitivity [of "[1, 1, 1, 1, 1]" 0 0] by simp

subsection \<open>C9: the second example scenario\<close>

text \<open>
  C9. For the input of example scenario 2 (bpm 200, loudness 0, centroid 5000, flux 1,
  mode major, both model values 1, coefficients \<open>[1, 1, 1, 1, 1]\<close>), normalising with
  the fixed reference ranges and then scoring yields valence 1.000 and arousal 1.000:
  \<open>analyze\<close> returns a result whose two scores, reported to three decimals, are exactly
  1. Before that rounding each score is within \<open>1e-9\<close> of 1, the upper bound of a range
  of width \<open>d\<close> being normalised to \<open>d / (d + 1e-9)\<close>.
\<close>

theorem C9_scenario2_scores:
  "\<exists>v a r. analyze (scenario2 k) (Some (Num 1, Num 1)) = Inr r
      \<and> r_valence r = Num 1 \<and> r_arousal r = Num 1
      \<and> mood_vector (scenario2 k) (Num 1) (Num 1) = Inr (Num v, Num a)
      \<and> \<bar>v - 1\<bar> < 1 / 1000000000 \<and> \<bar>a - 1\<bar> < 1 / 1000000000"
proof -
  obtain v a where mv: "mood_vector (scenario2 k) (Num 1) (Num 1) = Inr (Num v, Num a)"
    and vb: "\<bar>v - 1\<bar> < 1 / 1000000000" and ab: "\<bar>a - 1\<bar> < 1 / 1000000000"
    using scenario2_scores by blast
  have rv: "py_round (Num v) 3 = Num 1" using vb by (rule py_round_near_one)
  have ra: "py_round (Num a) 3 = Num 1" using ab by (rule py_round_near_one)
  from vb ab show ?thesis
    by (simp add: analyze_def high_level_def mv rv ra del: py_round.simps)
qed

subsection \<open>C10: monotonicity\<close>

text \<open>
  C10. Both scorers are monotone nondecreasing in each real-valued input, the others
  held fixed: raising the normalised centroid, the valence model or any one timbre
  coefficient never lowers the valence returned by \<open>compute_valence\<close>, and raising the
  normalised bpm, loudness, flux or the energy model never lowers the arousal returned
  by \<open>compute_arousal\<close>. The coefficient at any position \<open>i\<close> of the sequence may be
  raised, the first five included.
\<close>

theorem C10_scorers_monotone:
  assumes "c \<le> c'" and "v \<le> v'" and "i < length xs" and "xs ! i \<le> y"
      and "b \<le> b'" and "l \<le> l'" and "f \<le> f'" and "e \<le> e'"
  shows "py_le (compute_valence mode (Num c) (Num v) (map Num xs))
               (compute_valence mode (Num c') (Num v) (map Num xs))
       \<and> py_le (compute_valence mode (Num c) (Num v) (map Num xs))
               (compute_valence mode (Num c) (Num v') (map Num xs))
       \<and> py_le (compute_valence mode (Num c) (Num v) (map Num xs))
               (compute_valence mode (Num c) (Num v) (map Num (xs[i := y])))
       \<and> py_le (compute_arousal (Num b) (Num l) (Num f) (Num e))
               (compute_arousal (Num b') (Num l) (Num f) (Num e))
       \<and> py_le (compute_arousal (Num b) (Num l) (Num f) (Num e))
               (compute_arousal (Num b) (Num l') (Num f) (Num e))
       \<and> py_le (compute_arousal (Num b) (Num l) (Num f) (Num e))
               (compute_arousal (Num b) (Num l) (Num f') (Num e))
       \<and> py_le (compute_arousal (Num b) (Num l) (Num f) (Num e))
               (compute_arousal (Num b) (Num l) (Num f) (Num e'))"
proof -
  have same: "list_all2 (\<le>) xs xs" by (simp add: list_all2_same)
  have upd: "list_all2 (\<le>) xs (xs[i := y])" using assms(3,4) by (rule list_all2_update)
  show ?thesis
    using assms(1,2,5-8) same upd
    by (intro conjI compute_valence_mono compute_arousal_mono) simp_all
qed

theorem C10_scorers_monotone_witness:
  "(0::real) \<le> 1 \<and> (2::nat) < length [0, 0, 0, 0, 0 :: real]
   \<and> [0, 0, 0, 0, 0 :: real] ! 2 \<le> 1
   \<and> py_le (compute_valence ''minor'' (Num 0) (Num 0) (map Num [0, 0, 0, 0, 0]))
            (compute_valence ''minor'' (Num 1) (Num 0) (map Num [0, 0, 0, 0, 0]))
   \<and> py_le (compute_valence ''minor'' (Num 0) (Num 0) (map Num [0, 0, 0, 0, 0]))
            (compute_valence ''minor'' (Num 0) (Num 0) (map Num ([0, 0, 0, 0, 0][2 := 1])))
   \<and> py_le (compute_arousal (Num 0) (Num 0) (Num 0) (Num 0))
            (compute_arousal (Num 1) (Num 0) (Num 0) (Num 0))"
  using C10_scorers_monotone [of 0 1 0 1 2 "[0, 0, 0, 0, 0]" 1 0 1 0 1 0 1 0 1 "''minor''"]
  by simp

end
